theory Spec2Isabelle
  imports Complex_Main "HOL-Library.AList"
begin

section \<open>The per-library configuration of the Find Duplicates plugin\<close>

text \<open>
  The development embeds the configuration accessors of
  \<^verbatim>\<open>calibre_plugins/find_duplicates/config.py\<close>:
  \<^verbatim>\<open>migrate_library_config_if_required\<close>, \<^verbatim>\<open>get_library_config\<close>,
  \<^verbatim>\<open>set_library_config\<close>, \<^verbatim>\<open>get_exemption_lists\<close> and
  \<^verbatim>\<open>set_exemption_list\<close>.
\<close>

subsection \<open>Values and configuration records\<close>

text \<open>
  The values the preference stores hold are JSON values. Numbers are rationals: the only
  number the code looks at is the schema version, which it compares with the constant
  \<^verbatim>\<open>1.5\<close>, and that comparison is exact.
\<close>

datatype pyval =
    PNone
  | PBool bool
  | PNum rat
  | PStr string
  | PList "pyval list"
  | PDict "(string \<times> pyval) list"

text \<open>An exemption list is a list of groups, each group a list of book ids or of authors.\<close>

type_synonym exemptions = "pyval list list"

text \<open>
  A library configuration is a Python dict with known keys. Each field is named after
  its key and is \<open>None\<close> when the dict has no such key. The two exemption keys hold
  lists of lists, the shape the loop of \<^verbatim>\<open>get_exemption_lists\<close> indexes and iterates;
  the other keys hold any value, the code never looks inside them.
\<close>

record library_config =
  lastLibraryCompare :: "pyval option"
  bookExemptions :: "exemptions option"
  authorExemptions :: "exemptions option"
  SchemaVersion :: "pyval option"
  bookNotDuplicates :: "pyval option"
  authorNotDuplicates :: "pyval option"

definition DEFAULT_SCHEMA_VERSION :: pyval where
  "DEFAULT_SCHEMA_VERSION = PNum (3 / 2)"

definition DEFAULT_LIBRARY_VALUES :: library_config where
  "DEFAULT_LIBRARY_VALUES =
     \<lparr>lastLibraryCompare = Some (PStr []),
      bookExemptions = Some [],
      authorExemptions = Some [],
      SchemaVersion = Some DEFAULT_SCHEMA_VERSION,
      bookNotDuplicates = None,
      authorNotDuplicates = None\<rparr>"

text \<open>The two keys \<^verbatim>\<open>set_exemption_list\<close> is called with.\<close>

datatype config_key = KEY_BOOK_EXEMPTIONS | KEY_AUTHOR_EXEMPTIONS

text \<open>\<^verbatim>\<open>library_config.get(key, [])\<close> for an exemption key.\<close>

fun get_exemptions :: "config_key \<Rightarrow> library_config \<Rightarrow> exemptions" where
  "get_exemptions KEY_BOOK_EXEMPTIONS c =
     (case bookExemptions c of None \<Rightarrow> [] | Some v \<Rightarrow> v)"
| "get_exemptions KEY_AUTHOR_EXEMPTIONS c =
     (case authorExemptions c of None \<Rightarrow> [] | Some v \<Rightarrow> v)"

text \<open>The value under an exemption key, \<open>None\<close> when the dict has no such key.\<close>

fun exemptions_at :: "config_key \<Rightarrow> library_config \<Rightarrow> exemptions option" where
  "exemptions_at KEY_BOOK_EXEMPTIONS c = bookExemptions c"
| "exemptions_at KEY_AUTHOR_EXEMPTIONS c = authorExemptions c"

text \<open>\<^verbatim>\<open>library_config[config_key] = exemptions_list\<close>.\<close>

fun put_exemptions :: "config_key \<Rightarrow> exemptions \<Rightarrow> library_config \<Rightarrow> library_config" where
  "put_exemptions KEY_BOOK_EXEMPTIONS v c = c\<lparr>bookExemptions := Some v\<rparr>"
| "put_exemptions KEY_AUTHOR_EXEMPTIONS v c = c\<lparr>authorExemptions := Some v\<rparr>"

subsection \<open>The library and the stores\<close>

text \<open>
  What the code asks of the host's database object: its library uuid
  (\<^verbatim>\<open>get_library_uuid(db)\<close>), the id test \<^verbatim>\<open>db.data.has_id\<close>, and the preference
  store \<^verbatim>\<open>db.prefs\<close>. The host is not part of the plugin, and the plugin mutates the
  dict it gets from \<^verbatim>\<open>db.prefs.get_namespaced\<close>, so what a read hands out matters:
  \<open>prefs_copies\<close> is \<open>False\<close> for a store that hands out the stored object itself and
  keeps the object it is given (an in-memory dict of objects, as calibre's), and \<open>True\<close>
  for a store that hands out a fresh copy and keeps a copy of what it is given.
\<close>

record db =
  library_uuid :: string
  has_id :: "pyval \<Rightarrow> bool"
  prefs_copies :: bool

text \<open>
  The state: \<open>libraries\<close> is the value of \<^verbatim>\<open>plugin_prefs['libraries']\<close> in the global
  JSON file (\<open>None\<close> when the key is absent), a dict from library uuid to configuration;
  \<open>heap\<close> holds the configuration dicts as Python objects, \<open>next_addr\<close> being the next
  unused address; \<open>settings\<close> is the object \<^verbatim>\<open>db.prefs\<close> holds under namespace
  \<^verbatim>\<open>FindDuplicatesPlugin\<close>, key \<^verbatim>\<open>settings\<close>; \<open>writes\<close> logs the records that
  \<^verbatim>\<open>set_namespaced\<close> was called with, oldest first.
\<close>

record state =
  libraries :: "(string \<times> library_config) list option"
  heap :: "nat \<Rightarrow> library_config"
  next_addr :: nat
  settings :: "nat option"
  writes :: "library_config list"

definition alloc :: "library_config \<Rightarrow> state \<Rightarrow> nat \<times> state" where
  "alloc c s =
     (next_addr s, s\<lparr>heap := (heap s)(next_addr s := c), next_addr := Suc (next_addr s)\<rparr>)"

text \<open>In-place change of the dict at an address.\<close>

definition modify :: "nat \<Rightarrow> (library_config \<Rightarrow> library_config) \<Rightarrow> state \<Rightarrow> state" where
  "modify a f s = s\<lparr>heap := (heap s)(a := f (heap s a))\<rparr>"

text \<open>
  \<^verbatim>\<open>db.prefs.get_namespaced(PREFS_NAMESPACE, PREFS_KEY_SETTINGS, default)\<close>: the default
  object when nothing is stored.
\<close>

definition get_namespaced :: "db \<Rightarrow> nat \<Rightarrow> state \<Rightarrow> nat \<times> state" where
  "get_namespaced d default_config s =
     (case settings s of
        None \<Rightarrow> (default_config, s)
      | Some a \<Rightarrow> if prefs_copies d then alloc (heap s a) s else (a, s))"

text \<open>\<^verbatim>\<open>db.prefs.set_namespaced(PREFS_NAMESPACE, PREFS_KEY_SETTINGS, val)\<close>.\<close>

definition set_namespaced :: "db \<Rightarrow> nat \<Rightarrow> state \<Rightarrow> state" where
  "set_namespaced d a s =
     (let s1 = s\<lparr>writes := writes s @ [heap s a]\<rparr>
      in if prefs_copies d
         then (let (b, s2) = alloc (heap s a) s1 in s2\<lparr>settings := Some b\<rparr>)
         else s1\<lparr>settings := Some a\<rparr>)"

text \<open>The record \<^verbatim>\<open>db.prefs\<close> holds, if any.\<close>

definition stored_record :: "state \<Rightarrow> library_config option" where
  "stored_record s = map_option (heap s) (settings s)"

text \<open>Every address the store holds has been allocated.\<close>

definition wf :: "state \<Rightarrow> bool" where
  "wf s = (case settings s of None \<Rightarrow> True | Some a \<Rightarrow> a < next_addr s)"

subsection \<open>The accessors\<close>

definition set_library_config :: "db \<Rightarrow> nat \<Rightarrow> state \<Rightarrow> state" where
  "set_library_config d library_config s = set_namespaced d library_config s"

definition migrate_library_config_if_required :: "db \<Rightarrow> nat \<Rightarrow> state \<Rightarrow> state" where
  "migrate_library_config_if_required d library_config s =
     (let schema_version =
            (case SchemaVersion (heap s library_config) of None \<Rightarrow> PNum 0 | Some v \<Rightarrow> v)
      in if schema_version = DEFAULT_SCHEMA_VERSION then s
         else set_library_config d library_config
                (modify library_config (\<lambda>c. c\<lparr>SchemaVersion := Some DEFAULT_SCHEMA_VERSION\<rparr>) s))"

text \<open>
  The first block of \<^verbatim>\<open>get_library_config\<close>: the record of this library is taken out
  of the JSON file, if it is there. The record leaves the file for good, so the object
  is not shared with the file afterwards.
\<close>

definition take_from_json :: "db \<Rightarrow> state \<Rightarrow> nat option \<times> state" where
  "take_from_json d s =
     (case libraries s of
        None \<Rightarrow> (None, s)
      | Some libs \<Rightarrow>
          (case map_of libs (library_uuid d) of
             None \<Rightarrow> (None, s)
           | Some c \<Rightarrow>
               (let (library_config, s1) = alloc c s;
                    libs' = AList.delete (library_uuid d) libs
                in (Some library_config,
                    s1\<lparr>libraries := (if length libs' = 0 then None else Some libs')\<rparr>))))"

definition get_library_config :: "db \<Rightarrow> state \<Rightarrow> nat \<times> state" where
  "get_library_config d s =
     (let (from_json, s1) = take_from_json d s;
          (library_config, s2) =
            (case from_json of
               Some a \<Rightarrow> (a, s1)
             | None \<Rightarrow>
                 (let (default_config, s') = alloc DEFAULT_LIBRARY_VALUES s1
                  in get_namespaced d default_config s'))
      in (library_config, migrate_library_config_if_required d library_config s2))"

definition set_exemption_list :: "db \<Rightarrow> config_key \<Rightarrow> exemptions \<Rightarrow> state \<Rightarrow> state" where
  "set_exemption_list d config_key exemptions_list s =
     (let (library_config, s1) = get_library_config d s
      in set_library_config d library_config
           (modify library_config (put_exemptions config_key exemptions_list) s1))"

text \<open>One round of the pruning loop, at index \<open>idx\<close>.\<close>

definition prune_step :: "db \<Rightarrow> nat \<Rightarrow> exemptions \<times> bool \<Rightarrow> exemptions \<times> bool" where
  "prune_step d idx acc =
     (let (book_exemptions, is_changed) = acc;
          old_list = book_exemptions ! idx;
          new_list = filter (has_id d) old_list
      in if length old_list \<noteq> length new_list
         then (book_exemptions[idx := new_list], True)
         else (book_exemptions, is_changed))"

definition prune_loop :: "db \<Rightarrow> exemptions \<Rightarrow> exemptions \<times> bool" where
  "prune_loop d book_exemptions =
     fold (prune_step d) [0..<length book_exemptions] (book_exemptions, False)"

text \<open>
  \<^verbatim>\<open>get_exemption_lists\<close>, in its three parts. First the maps of version 1.0 are
  discarded: each legacy key is deleted from the dict \<open>library_config\<close> and the
  exemption list of its kind is saved as empty.
\<close>

definition discard_previous_maps :: "db \<Rightarrow> nat \<Rightarrow> state \<Rightarrow> state" where
  "discard_previous_maps d library_config s1 =
     (let s2 = (if bookNotDuplicates (heap s1 library_config) \<noteq> None
                then set_exemption_list d KEY_BOOK_EXEMPTIONS []
                       (modify library_config (\<lambda>c. c\<lparr>bookNotDuplicates := None\<rparr>) s1)
                else s1)
      in if authorNotDuplicates (heap s2 library_config) \<noteq> None
         then set_exemption_list d KEY_AUTHOR_EXEMPTIONS []
                (modify library_config (\<lambda>c. c\<lparr>authorNotDuplicates := None\<rparr>) s2)
         else s2)"

text \<open>
  Then the book exemptions are pruned. The list the loop changes in place is the one
  the dict \<open>library_config\<close> holds under \<^verbatim>\<open>bookExemptions\<close>, so the change is a change
  of that dict; when the key is absent the list is a fresh empty one and the loop does
  not run.
\<close>

definition prune_book_exemptions :: "db \<Rightarrow> nat \<Rightarrow> state \<Rightarrow> exemptions \<times> state" where
  "prune_book_exemptions d library_config s3 =
     (case bookExemptions (heap s3 library_config) of
        None \<Rightarrow> ([], s3)
      | Some stored \<Rightarrow>
          (let (pruned, is_changed) = prune_loop d stored;
               s' = modify library_config (\<lambda>c. c\<lparr>bookExemptions := Some pruned\<rparr>) s3
           in if is_changed
              then (let book_exemptions = filter (\<lambda>l. length l > 0) pruned
                    in (book_exemptions,
                        set_exemption_list d KEY_BOOK_EXEMPTIONS book_exemptions s'))
              else (pruned, s')))"

definition get_exemption_lists :: "db \<Rightarrow> state \<Rightarrow> (exemptions \<times> exemptions) \<times> state" where
  "get_exemption_lists d s =
     (let (library_config, s1) = get_library_config d s;
          s3 = discard_previous_maps d library_config s1;
          (book_exemptions, s4) = prune_book_exemptions d library_config s3;
          author_exemptions = get_exemptions KEY_AUTHOR_EXEMPTIONS (heap s4 library_config)
      in ((book_exemptions, author_exemptions), s4))"

text \<open>
  The library has no record waiting in the JSON file: \<^verbatim>\<open>'libraries'\<close> is not a key of
  \<^verbatim>\<open>plugin_prefs\<close>, or the library uuid is not a key of \<^verbatim>\<open>plugin_prefs['libraries']\<close>.
\<close>

definition no_json_entry :: "db \<Rightarrow> state \<Rightarrow> bool" where
  "no_json_entry d s =
     (case libraries s of None \<Rightarrow> True | Some libs \<Rightarrow> map_of libs (library_uuid d) = None)"

subsection \<open>The state between the steps of \<^verbatim>\<open>get_exemption_lists\<close>\<close>

text \<open>
  On a store that hands out the stored object, the dict \<open>a\<close> the function works on is
  the stored one; its schema version is current.
\<close>

definition shared :: "db \<Rightarrow> state \<Rightarrow> nat \<Rightarrow> bool" where
  "shared d s a \<longleftrightarrow>
     \<not> prefs_copies d \<and> no_json_entry d s \<and> settings s = Some a \<and> a < next_addr s
     \<and> SchemaVersion (heap s a) = Some DEFAULT_SCHEMA_VERSION"

text \<open>
  On a store that hands out copies, the dict \<open>a\<close> is the function's own, and the store
  holds another object, with content \<open>S\<close> of the current schema version.
\<close>

definition detached :: "db \<Rightarrow> state \<Rightarrow> nat \<Rightarrow> library_config \<Rightarrow> bool" where
  "detached d s a S \<longleftrightarrow>
     prefs_copies d \<and> no_json_entry d s \<and> a < next_addr s
     \<and> (\<exists>b. settings s = Some b \<and> b < next_addr s \<and> b \<noteq> a \<and> heap s b = S)
     \<and> SchemaVersion S = Some DEFAULT_SCHEMA_VERSION"

text \<open>
  What the pruning makes of a list of groups: when some group holds an id that is not
  in the library, every group is filtered and the empty groups are dropped; otherwise the
  list stays as it is.
\<close>

definition pruned_books :: "db \<Rightarrow> exemptions \<Rightarrow> exemptions" where
  "pruned_books d st =
     (if \<exists>l\<in>set st. filter (has_id d) l \<noteq> l
      then filter (\<lambda>l. length l > 0) (map (filter (has_id d)) st) else st)"

subsection \<open>Example libraries\<close>

text \<open>
  A library \<^verbatim>\<open>lib-1\<close> that holds the books 1 and 2, on a store of either kind.
\<close>

definition example_db :: "bool \<Rightarrow> db" where
  "example_db copies =
     \<lparr>library_uuid = ''lib-1'', has_id = (\<lambda>v. v = PNum 1 \<or> v = PNum 2),
      prefs_copies = copies\<rparr>"

text \<open>Nothing stored anywhere.\<close>

definition fresh_state :: state where
  "fresh_state =
     \<lparr>libraries = None, heap = (\<lambda>a. DEFAULT_LIBRARY_VALUES), next_addr = 0,
      settings = None, writes = []\<rparr>"

text \<open>The JSON file holds the record \<open>c\<close> for \<^verbatim>\<open>lib-1\<close>, and \<^verbatim>\<open>db.prefs\<close> holds nothing.\<close>

definition json_state :: "library_config \<Rightarrow> state" where
  "json_state c = fresh_state\<lparr>libraries := Some [(''lib-1'', c)]\<rparr>"

text \<open>\<^verbatim>\<open>db.prefs\<close> holds the record \<open>c\<close>, and the JSON file has no \<^verbatim>\<open>'libraries'\<close>.\<close>

definition stored_state :: "library_config \<Rightarrow> state" where
  "stored_state c =
     fresh_state\<lparr>heap := (heap fresh_state)(0 := c), next_addr := 1, settings := Some 0\<rparr>"

text \<open>\<^verbatim>\<open>{'bookExemptions': [[1, 2]], 'SchemaVersion': 1.5}\<close>\<close>

definition current_config :: library_config where
  "current_config =
     \<lparr>lastLibraryCompare = None, bookExemptions = Some [[PNum 1, PNum 2]],
      authorExemptions = None, SchemaVersion = Some (PNum (3 / 2)),
      bookNotDuplicates = None, authorNotDuplicates = None\<rparr>"

text \<open>\<^verbatim>\<open>{'bookExemptions': [[1, 2, 3], [4]], 'authorExemptions': [['C', 'D']]}\<close>, of an
  older schema; the books 3 and 4 have left the library.\<close>

definition stale_config :: library_config where
  "stale_config =
     \<lparr>lastLibraryCompare = None, bookExemptions = Some [[PNum 1, PNum 2, PNum 3], [PNum 4]],
      authorExemptions = Some [[PStr ''C'', PStr ''D'']], SchemaVersion = None,
      bookNotDuplicates = None, authorNotDuplicates = None\<rparr>"

text \<open>\<^verbatim>\<open>{'bookNotDuplicates': {}, 'authorNotDuplicates': {}, 'bookExemptions': [[1, 2]],
  'authorExemptions': [['A', 'B']], 'SchemaVersion': 1.5}\<close>: a record that still has the
  maps of version 1.0.\<close>

definition v1_config :: library_config where
  "v1_config =
     \<lparr>lastLibraryCompare = None, bookExemptions = Some [[PNum 1, PNum 2]],
      authorExemptions = Some [[PStr ''A'', PStr ''B'']], SchemaVersion = Some (PNum (3 / 2)),
      bookNotDuplicates = Some (PDict []), authorNotDuplicates = Some (PDict [])\<rparr>"

text \<open>\<^verbatim>\<open>{'bookExemptions': [[1], [], [2]], 'authorExemptions': [['A', 'Z']],
  'SchemaVersion': 1.5}\<close>: nothing to prune, an empty group, an author unknown to the
  library.\<close>

definition keeping_config :: library_config where
  "keeping_config =
     \<lparr>lastLibraryCompare = None, bookExemptions = Some [[PNum 1], [], [PNum 2]],
      authorExemptions = Some [[PStr ''A'', PStr ''Z'']], SchemaVersion = Some (PNum (3 / 2)),
      bookNotDuplicates = None, authorNotDuplicates = None\<rparr>"

text \<open>\<^verbatim>\<open>db.prefs\<close> holds \<open>v1_config\<close> while the JSON file still holds \<open>stale_config\<close>
  for the library.\<close>

definition waiting_state :: state where
  "waiting_state = (stored_state v1_config)\<lparr>libraries := Some [(''lib-1'', stale_config)]\<rparr>"

section \<open>Properties\<close>

subsection \<open>The pruning loop\<close>

lemma filter_length_eq: "length (filter P xs) = length xs \<longleftrightarrow> filter P xs = xs"
  by (metis filter_True filter_id_conv length_filter_less less_irrefl_nat)

lemma prune_step_at:
  assumes "length xs = idx"
  shows "prune_step d idx (xs @ l # ys, c) =
           (xs @ filter (has_id d) l # ys, c \<or> filter (has_id d) l \<noteq> l)"
proof -
  have nth: "(xs @ l # ys) ! idx = l"
    using assms by auto
  have upd: "(xs @ l # ys)[idx := v] = xs @ v # ys" for v
    using assms by auto
  show ?thesis
  proof (cases "length l = length (filter (has_id d) l)")
    case True
    then have "filter (has_id d) l = l" by (metis filter_length_eq)
    then show ?thesis by (simp add: prune_step_def nth)
  next
    case False
    then have "filter (has_id d) l \<noteq> l" by metis
    with False show ?thesis by (simp add: prune_step_def nth upd)
  qed
qed

lemma prune_fold:
  "n \<le> length be \<Longrightarrow>
   fold (prune_step d) [0..<n] (be, c) =
     (map (filter (has_id d)) (take n be) @ drop n be,
      c \<or> (\<exists>l\<in>set (take n be). filter (has_id d) l \<noteq> l))"
proof (induction n)
  case 0
  then show ?case by simp
next
  case (Suc n)
  then have n: "n < length be" by simp
  have split: "drop n be = be ! n # drop (Suc n) be"
    using n by (simp add: Cons_nth_drop_Suc)
  have len: "length (map (filter (has_id d)) (take n be)) = n"
    using n by simp
  show ?case
    using Suc.IH n
    by (auto simp add: split prune_step_at [OF len] take_Suc_conv_app_nth)
qed

text \<open>The loop filters every group, and reports a change when some group lost an id.\<close>

lemma prune_loop_eq:
  "prune_loop d be =
     (map (filter (has_id d)) be, \<exists>l\<in>set be. filter (has_id d) l \<noteq> l)"
  by (simp add: prune_loop_def prune_fold)

lemma prune_book_exemptions_valid:
  "\<forall>l\<in>set (fst (prune_book_exemptions d a s)). \<forall>book_id\<in>set l. has_id d book_id"
  by (auto simp add: prune_book_exemptions_def prune_loop_eq Let_def filter_id_conv
      split: option.split if_splits)

subsection \<open>The JSON file\<close>

lemma libraries_set_namespaced [simp]: "libraries (set_namespaced d a s) = libraries s"
  by (simp add: set_namespaced_def alloc_def Let_def)

lemma libraries_migrate [simp]:
  "libraries (migrate_library_config_if_required d a s) = libraries s"
  by (simp add: migrate_library_config_if_required_def set_library_config_def modify_def Let_def)

lemma libraries_get_namespaced [simp]: "libraries (snd (get_namespaced d a s)) = libraries s"
  by (simp add: get_namespaced_def alloc_def split: option.split)

lemma libraries_get_library_config:
  "libraries (snd (get_library_config d s)) = libraries (snd (take_from_json d s))"
  by (simp add: get_library_config_def alloc_def Let_def split_beta split: option.split)

lemma take_from_json_none:
  "no_json_entry d s \<Longrightarrow> take_from_json d s = (None, s)"
  by (simp add: no_json_entry_def take_from_json_def split: option.splits)

lemma no_json_after_take: "no_json_entry d (snd (take_from_json d s))"
  by (simp add: no_json_entry_def take_from_json_def alloc_def Let_def delete_conv
      split: option.split)

lemma no_json_after_get: "no_json_entry d (snd (get_library_config d s))"
  using no_json_after_take [of d s]
  by (simp add: no_json_entry_def libraries_get_library_config)

lemma delete_only_key:
  "\<forall>k\<in>fst ` set libs. k = u \<Longrightarrow> AList.delete u libs = []"
  by (auto simp add: AList.delete_eq filter_empty_conv)

subsection \<open>The schema version\<close>

lemma schema_migrate:
  "SchemaVersion (heap (migrate_library_config_if_required d a s) a)
     = Some DEFAULT_SCHEMA_VERSION"
  by (auto simp add: migrate_library_config_if_required_def set_library_config_def
      set_namespaced_def modify_def alloc_def Let_def DEFAULT_SCHEMA_VERSION_def
      split: option.split)

lemma get_library_config_first_access:
  assumes "settings s = None" and "no_json_entry d s"
  shows "get_library_config d s = (next_addr s, snd (alloc DEFAULT_LIBRARY_VALUES s))"
  using assms
  by (simp add: get_library_config_def take_from_json_none get_namespaced_def alloc_def
      migrate_library_config_if_required_def DEFAULT_LIBRARY_VALUES_def)

lemma get_library_config_addr:
  "wf s \<Longrightarrow> fst (get_library_config d s) < next_addr (snd (get_library_config d s))"
  by (auto simp add: get_library_config_def take_from_json_def get_namespaced_def
      migrate_library_config_if_required_def set_library_config_def set_namespaced_def
      modify_def alloc_def wf_def Let_def split: option.split)

lemma schema_get_library_config:
  "SchemaVersion (heap (snd (get_library_config d s)) (fst (get_library_config d s)))
     = Some DEFAULT_SCHEMA_VERSION"
  using schema_migrate
  by (simp add: get_library_config_def Let_def split_beta)

lemma no_json_set_namespaced [simp]:
  "no_json_entry d (set_namespaced d' a s) = no_json_entry d s"
  by (simp add: no_json_entry_def)

lemma no_json_modify [simp]: "no_json_entry d (modify a f s) = no_json_entry d s"
  by (simp add: no_json_entry_def modify_def)

lemma get_library_config_no_json:
  "no_json_entry d s \<Longrightarrow>
   get_library_config d s =
     (let r = get_namespaced d (next_addr s) (snd (alloc DEFAULT_LIBRARY_VALUES s))
      in (fst r, migrate_library_config_if_required d (fst r) (snd r)))"
  by (simp add: get_library_config_def take_from_json_none alloc_def Let_def split_beta)

lemma get_after_save:
  assumes "no_json_entry d t" and "g < next_addr t"
    and "SchemaVersion (f (heap t g)) = Some DEFAULT_SCHEMA_VERSION"
  shows "heap (snd (get_library_config d (set_namespaced d g (modify g f t))))
              (fst (get_library_config d (set_namespaced d g (modify g f t))))
           = f (heap t g)"
proof -
  have nj: "no_json_entry d (set_namespaced d g (modify g f t))"
    using assms(1) by simp
  show ?thesis
    unfolding get_library_config_no_json [OF nj]
    using assms(2,3)
    by (simp add: get_namespaced_def
        set_namespaced_def migrate_library_config_if_required_def modify_def alloc_def
        Let_def)
qed

lemma schema_put [simp]:
  "SchemaVersion (put_exemptions k v c) = SchemaVersion c"
  by (cases k) simp_all

lemma exemptions_at_put [simp]: "exemptions_at k (put_exemptions k v c) = Some v"
  by (cases k) simp_all

subsection \<open>A store that hands out the stored object\<close>

lemma heap_modify_same [simp]: "heap (modify a f s) a = f (heap s a)"
  by (simp add: modify_def)

lemma writes_modify [simp]: "writes (modify a f s) = writes s"
  by (simp add: modify_def)

lemma settings_modify [simp]: "settings (modify a f s) = settings s"
  by (simp add: modify_def)

lemma next_addr_modify [simp]: "next_addr (modify a f s) = next_addr s"
  by (simp add: modify_def)

lemma shared_modify:
  "shared d s a \<Longrightarrow> SchemaVersion (f (heap s a)) = Some DEFAULT_SCHEMA_VERSION \<Longrightarrow>
   shared d (modify a f s) a"
  by (simp add: shared_def)

lemma get_library_config_shared:
  assumes "shared d s a"
  shows "get_library_config d s = (a, snd (alloc DEFAULT_LIBRARY_VALUES s))"
  using assms
  by (simp add: shared_def get_library_config_no_json get_namespaced_def alloc_def
      migrate_library_config_if_required_def Let_def)

lemma set_exemption_list_shared:
  assumes "shared d s a"
  shows "shared d (set_exemption_list d k v s) a"
    and "heap (set_exemption_list d k v s) a = put_exemptions k v (heap s a)"
    and "writes (set_exemption_list d k v s) = writes s @ [put_exemptions k v (heap s a)]"
  using assms
  by (simp_all add: set_exemption_list_def get_library_config_shared [OF assms]
      set_library_config_def set_namespaced_def shared_def alloc_def modify_def
      no_json_entry_def)

lemma get_library_config_by_reference:
  assumes "\<not> prefs_copies d" and "no_json_entry d s" and "settings s = Some b"
    and "b < next_addr s"
  shows "fst (get_library_config d s) = b"
    and "shared d (snd (get_library_config d s)) b"
    and "heap (snd (get_library_config d s)) b
           = (heap s b)\<lparr>SchemaVersion := Some DEFAULT_SCHEMA_VERSION\<rparr>"
    and "writes (snd (get_library_config d s))
           = writes s @ (if SchemaVersion (heap s b) = Some DEFAULT_SCHEMA_VERSION then []
                         else [(heap s b)\<lparr>SchemaVersion := Some DEFAULT_SCHEMA_VERSION\<rparr>])"
  using assms
  by (auto simp add: get_library_config_no_json get_namespaced_def alloc_def shared_def
      migrate_library_config_if_required_def set_library_config_def set_namespaced_def
      modify_def no_json_entry_def Let_def DEFAULT_SCHEMA_VERSION_def
      split: option.splits)


lemma shared_schema:
  "shared d s a \<Longrightarrow> SchemaVersion (heap s a) = Some DEFAULT_SCHEMA_VERSION"
  by (simp add: shared_def)

lemma discard_previous_maps_shared:
  assumes "shared d s a"
  shows "shared d (discard_previous_maps d a s) a"
    and "heap (discard_previous_maps d a s) a =
           (let c = heap s a;
                c1 = (if bookNotDuplicates c \<noteq> None
                      then c\<lparr>bookNotDuplicates := None, bookExemptions := Some []\<rparr> else c)
            in if authorNotDuplicates c \<noteq> None
               then c1\<lparr>authorNotDuplicates := None, authorExemptions := Some []\<rparr> else c1)"
    and "writes (discard_previous_maps d a s) =
           (let c = heap s a;
                c1 = (if bookNotDuplicates c \<noteq> None
                      then c\<lparr>bookNotDuplicates := None, bookExemptions := Some []\<rparr> else c)
            in writes s
               @ (if bookNotDuplicates c \<noteq> None then [c1] else [])
               @ (if authorNotDuplicates c \<noteq> None
                  then [c1\<lparr>authorNotDuplicates := None, authorExemptions := Some []\<rparr>]
                  else []))"
proof -
  note sv = shared_schema [OF assms]
  have m1: "shared d (modify a (\<lambda>c. c\<lparr>bookNotDuplicates := None\<rparr>) s) a"
    using assms sv by (simp add: shared_modify)
  note e1 = set_exemption_list_shared [OF m1, of KEY_BOOK_EXEMPTIONS "[]"]
  define s2 where "s2 = (if bookNotDuplicates (heap s a) \<noteq> None
                then set_exemption_list d KEY_BOOK_EXEMPTIONS []
                       (modify a (\<lambda>c. c\<lparr>bookNotDuplicates := None\<rparr>) s)
                else s)"
  have s2: "shared d s2 a"
    using assms e1(1) by (simp add: s2_def)
  have h2: "heap s2 a = (if bookNotDuplicates (heap s a) \<noteq> None
                      then (heap s a)\<lparr>bookNotDuplicates := None, bookExemptions := Some []\<rparr>
                      else heap s a)"
    using e1(2) by (simp add: s2_def)
  have w2: "writes s2 = writes s @ (if bookNotDuplicates (heap s a) \<noteq> None
                      then [(heap s a)\<lparr>bookNotDuplicates := None, bookExemptions := Some []\<rparr>]
                      else [])"
    using e1(3) by (simp add: s2_def)
  have m2: "shared d (modify a (\<lambda>c. c\<lparr>authorNotDuplicates := None\<rparr>) s2) a"
    using s2 shared_schema [OF s2] by (simp add: shared_modify)
  note e2 = set_exemption_list_shared [OF m2, of KEY_AUTHOR_EXEMPTIONS "[]"]
  have d: "discard_previous_maps d a s =
             (if authorNotDuplicates (heap s2 a) \<noteq> None
              then set_exemption_list d KEY_AUTHOR_EXEMPTIONS []
                     (modify a (\<lambda>c. c\<lparr>authorNotDuplicates := None\<rparr>) s2)
              else s2)"
    by (simp add: discard_previous_maps_def s2_def Let_def)
  show "shared d (discard_previous_maps d a s) a"
    using s2 e2(1) by (simp add: d)
  show "heap (discard_previous_maps d a s) a =
           (let c = heap s a;
                c1 = (if bookNotDuplicates c \<noteq> None
                      then c\<lparr>bookNotDuplicates := None, bookExemptions := Some []\<rparr> else c)
            in if authorNotDuplicates c \<noteq> None
               then c1\<lparr>authorNotDuplicates := None, authorExemptions := Some []\<rparr> else c1)"
    using e2(2) h2 by (simp add: d Let_def)
  show "writes (discard_previous_maps d a s) =
           (let c = heap s a;
                c1 = (if bookNotDuplicates c \<noteq> None
                      then c\<lparr>bookNotDuplicates := None, bookExemptions := Some []\<rparr> else c)
            in writes s
               @ (if bookNotDuplicates c \<noteq> None then [c1] else [])
               @ (if authorNotDuplicates c \<noteq> None
                  then [c1\<lparr>authorNotDuplicates := None, authorExemptions := Some []\<rparr>]
                  else []))"
    using e2(3) h2 w2 by (simp add: d Let_def)
qed

lemma bookExemptions_same [simp]:
  "bookExemptions c = Some v \<Longrightarrow> c\<lparr>bookExemptions := Some v\<rparr> = c"
  by (cases c) simp

lemma map_filter_unchanged:
  "\<forall>l\<in>set st. filter P l = l \<Longrightarrow> map (filter P) st = st"
  by (simp add: map_idI)

lemma prune_book_exemptions_fst:
  "fst (prune_book_exemptions d a s) =
     (case bookExemptions (heap s a) of None \<Rightarrow> [] | Some st \<Rightarrow> pruned_books d st)"
  by (simp add: prune_book_exemptions_def prune_loop_eq pruned_books_def Let_def
      map_filter_unchanged split: option.split)

lemma prune_book_exemptions_shared:
  assumes "shared d s a"
  shows "shared d (snd (prune_book_exemptions d a s)) a"
    and "heap (snd (prune_book_exemptions d a s)) a =
           (case bookExemptions (heap s a) of
              None \<Rightarrow> heap s a
            | Some st \<Rightarrow> (heap s a)\<lparr>bookExemptions := Some (pruned_books d st)\<rparr>)"
    and "writes (snd (prune_book_exemptions d a s)) =
           writes s @
           (case bookExemptions (heap s a) of
              None \<Rightarrow> []
            | Some st \<Rightarrow>
                if \<exists>l\<in>set st. filter (has_id d) l \<noteq> l
                then [(heap s a)\<lparr>bookExemptions := Some (pruned_books d st)\<rparr>] else [])"
proof -
  note sv = shared_schema [OF assms]
  have m: "shared d (modify a (\<lambda>c. c\<lparr>bookExemptions := Some v\<rparr>) s) a" for v
    using assms sv by (simp add: shared_modify)
  note e = set_exemption_list_shared [OF m, of KEY_BOOK_EXEMPTIONS]
  show "shared d (snd (prune_book_exemptions d a s)) a"
    using assms m e(1)
    by (simp add: prune_book_exemptions_def prune_loop_eq Let_def split: option.split)
  show "heap (snd (prune_book_exemptions d a s)) a =
           (case bookExemptions (heap s a) of
              None \<Rightarrow> heap s a
            | Some st \<Rightarrow> (heap s a)\<lparr>bookExemptions := Some (pruned_books d st)\<rparr>)"
    using e(2)
    by (simp add: prune_book_exemptions_def prune_loop_eq pruned_books_def Let_def
        map_filter_unchanged split: option.split)
  show "writes (snd (prune_book_exemptions d a s)) =
           writes s @
           (case bookExemptions (heap s a) of
              None \<Rightarrow> []
            | Some st \<Rightarrow>
                if \<exists>l\<in>set st. filter (has_id d) l \<noteq> l
                then [(heap s a)\<lparr>bookExemptions := Some (pruned_books d st)\<rparr>] else [])"
    using e(3)
    by (simp add: prune_book_exemptions_def prune_loop_eq pruned_books_def Let_def
        split: option.split)
qed

lemma shared_stored: "shared d s a \<Longrightarrow> stored_record s = Some (heap s a)"
  by (simp add: shared_def stored_record_def)

text \<open>
  When the dict that \<^verbatim>\<open>get_library_config\<close> returns is the stored one, the rest of
  \<^verbatim>\<open>get_exemption_lists\<close> is a function of that dict's content \<open>c0\<close>.
\<close>

lemma get_exemption_lists_shared:
  assumes g: "get_library_config d s = (b, s1)" and sh1: "shared d s1 b"
    and c0: "c0 = heap s1 b"
    and c1: "c1 = (if bookNotDuplicates c0 \<noteq> None
                   then c0\<lparr>bookNotDuplicates := None, bookExemptions := Some []\<rparr> else c0)"
    and c2: "c2 = (if authorNotDuplicates c0 \<noteq> None
                   then c1\<lparr>authorNotDuplicates := None, authorExemptions := Some []\<rparr> else c1)"
    and c3: "c3 = (case bookExemptions c2 of
                     None \<Rightarrow> c2
                   | Some st \<Rightarrow> c2\<lparr>bookExemptions := Some (pruned_books d st)\<rparr>)"
  shows "fst (get_exemption_lists d s)
           = (get_exemptions KEY_BOOK_EXEMPTIONS c3, get_exemptions KEY_AUTHOR_EXEMPTIONS c3)"
    and "stored_record (snd (get_exemption_lists d s)) = Some c3"
    and "shared d (snd (get_exemption_lists d s)) b"
    and "heap (snd (get_exemption_lists d s)) b = c3"
    and "writes (snd (get_exemption_lists d s)) =
           writes s1
           @ (if bookNotDuplicates c0 \<noteq> None then [c1] else [])
           @ (if authorNotDuplicates c0 \<noteq> None then [c2] else [])
           @ (case bookExemptions c2 of
                None \<Rightarrow> []
              | Some st \<Rightarrow> if \<exists>l\<in>set st. filter (has_id d) l \<noteq> l then [c3] else [])"
proof -
  have h1: "heap s1 b = c0"
    by (simp add: c0)
  define s3 where "s3 = discard_previous_maps d b s1"
  note dm = discard_previous_maps_shared [OF sh1]
  have sh3: "shared d s3 b" using dm(1) by (simp add: s3_def)
  have h3: "heap s3 b = c2"
    using dm(2) by (simp add: s3_def h1 c1 c2 Let_def)
  define s4 where "s4 = snd (prune_book_exemptions d b s3)"
  note pr = prune_book_exemptions_shared [OF sh3]
  have h4: "heap s4 b = c3"
    using pr(2) unfolding h3 by (simp add: s4_def c3)
  have ge: "get_exemption_lists d s =
              ((fst (prune_book_exemptions d b s3),
                get_exemptions KEY_AUTHOR_EXEMPTIONS (heap s4 b)), s4)"
    by (simp add: get_exemption_lists_def g s3_def s4_def Let_def split_beta)
  show "fst (get_exemption_lists d s)
           = (get_exemptions KEY_BOOK_EXEMPTIONS c3, get_exemptions KEY_AUTHOR_EXEMPTIONS c3)"
    by (simp add: ge prune_book_exemptions_fst h3 h4 c3 split: option.split)
  show "stored_record (snd (get_exemption_lists d s)) = Some c3"
    using shared_stored [OF pr(1)] by (simp add: ge s4_def [symmetric] h4)
  show "shared d (snd (get_exemption_lists d s)) b"
    using pr(1) by (simp add: ge s4_def [symmetric])
  show "heap (snd (get_exemption_lists d s)) b = c3"
    by (simp add: ge h4)
  show "writes (snd (get_exemption_lists d s)) =
           writes s1
           @ (if bookNotDuplicates c0 \<noteq> None then [c1] else [])
           @ (if authorNotDuplicates c0 \<noteq> None then [c2] else [])
           @ (case bookExemptions c2 of
                None \<Rightarrow> []
              | Some st \<Rightarrow> if \<exists>l\<in>set st. filter (has_id d) l \<noteq> l then [c3] else [])"
    using pr(3) dm(3) unfolding h3 h1
    by (simp add: ge s4_def [symmetric] s3_def [symmetric]
        c1 c2 c3 Let_def split: option.split)
qed

text \<open>The same, from the record that \<^verbatim>\<open>db.prefs\<close> holds before the call.\<close>

lemma get_exemption_lists_by_reference:
  assumes "\<not> prefs_copies d" and "no_json_entry d s" and "settings s = Some b"
    and "b < next_addr s"
    and c0: "c0 = (heap s b)\<lparr>SchemaVersion := Some DEFAULT_SCHEMA_VERSION\<rparr>"
    and c1: "c1 = (if bookNotDuplicates c0 \<noteq> None
                   then c0\<lparr>bookNotDuplicates := None, bookExemptions := Some []\<rparr> else c0)"
    and c2: "c2 = (if authorNotDuplicates c0 \<noteq> None
                   then c1\<lparr>authorNotDuplicates := None, authorExemptions := Some []\<rparr> else c1)"
    and c3: "c3 = (case bookExemptions c2 of
                     None \<Rightarrow> c2
                   | Some st \<Rightarrow> c2\<lparr>bookExemptions := Some (pruned_books d st)\<rparr>)"
  shows "fst (get_exemption_lists d s)
           = (get_exemptions KEY_BOOK_EXEMPTIONS c3, get_exemptions KEY_AUTHOR_EXEMPTIONS c3)"
    and "stored_record (snd (get_exemption_lists d s)) = Some c3"
    and "shared d (snd (get_exemption_lists d s)) b"
    and "heap (snd (get_exemption_lists d s)) b = c3"
    and "writes (snd (get_exemption_lists d s)) =
           writes s
           @ (if SchemaVersion (heap s b) = Some DEFAULT_SCHEMA_VERSION then [] else [c0])
           @ (if bookNotDuplicates c0 \<noteq> None then [c1] else [])
           @ (if authorNotDuplicates c0 \<noteq> None then [c2] else [])
           @ (case bookExemptions c2 of
                None \<Rightarrow> []
              | Some st \<Rightarrow> if \<exists>l\<in>set st. filter (has_id d) l \<noteq> l then [c3] else [])"
proof -
  note r = get_library_config_by_reference [OF assms(1-4)]
  have g: "get_library_config d s = (b, snd (get_library_config d s))"
    using r(1) by (simp add: prod_eq_iff)
  have h: "c0 = heap (snd (get_library_config d s)) b"
    by (simp add: r(3) c0)
  note e = get_exemption_lists_shared [OF g r(2) h c1 c2 c3]
  show "fst (get_exemption_lists d s)
           = (get_exemptions KEY_BOOK_EXEMPTIONS c3, get_exemptions KEY_AUTHOR_EXEMPTIONS c3)"
    and "stored_record (snd (get_exemption_lists d s)) = Some c3"
    and "shared d (snd (get_exemption_lists d s)) b"
    and "heap (snd (get_exemption_lists d s)) b = c3"
    by (rule e)+
  show "writes (snd (get_exemption_lists d s)) =
           writes s
           @ (if SchemaVersion (heap s b) = Some DEFAULT_SCHEMA_VERSION then [] else [c0])
           @ (if bookNotDuplicates c0 \<noteq> None then [c1] else [])
           @ (if authorNotDuplicates c0 \<noteq> None then [c2] else [])
           @ (case bookExemptions c2 of
                None \<Rightarrow> []
              | Some st \<Rightarrow> if \<exists>l\<in>set st. filter (has_id d) l \<noteq> l then [c3] else [])"
    unfolding e(5) r(4) by (simp add: c0)
qed

subsection \<open>A store that hands out copies\<close>

lemma heap_modify_other [simp]: "b \<noteq> a \<Longrightarrow> heap (modify a f s) b = heap s b"
  by (simp add: modify_def)

lemma detached_modify: "detached d s a S \<Longrightarrow> detached d (modify a f s) a S"
  by (auto simp add: detached_def)

lemma detached_stored: "detached d s a S \<Longrightarrow> stored_record s = Some S"
  by (auto simp add: detached_def stored_record_def)

lemma set_exemption_list_detached:
  assumes "detached d s a S"
  shows "detached d (set_exemption_list d k v s) a (put_exemptions k v S)"
    and "heap (set_exemption_list d k v s) a = heap s a"
    and "writes (set_exemption_list d k v s) = writes s @ [put_exemptions k v S]"
proof -
  from assms obtain b where b: "prefs_copies d" "no_json_entry d s" "a < next_addr s"
    "settings s = Some b" "b < next_addr s" "b \<noteq> a" "heap s b = S"
    "SchemaVersion S = Some DEFAULT_SCHEMA_VERSION"
    by (auto simp add: detached_def)
  have g: "get_library_config d s =
             (Suc (next_addr s),
              s\<lparr>heap := (heap s)(next_addr s := DEFAULT_LIBRARY_VALUES, Suc (next_addr s) := S),
                next_addr := Suc (Suc (next_addr s))\<rparr>)"
    using b
    by (simp add: get_library_config_no_json get_namespaced_def alloc_def
        migrate_library_config_if_required_def Let_def)
  show "detached d (set_exemption_list d k v s) a (put_exemptions k v S)"
    using b
    by (simp add: set_exemption_list_def g set_library_config_def set_namespaced_def
        alloc_def modify_def detached_def no_json_entry_def)
  show "heap (set_exemption_list d k v s) a = heap s a"
    using b
    by (simp add: set_exemption_list_def g set_library_config_def set_namespaced_def
        alloc_def modify_def)
  show "writes (set_exemption_list d k v s) = writes s @ [put_exemptions k v S]"
    using b
    by (simp add: set_exemption_list_def g set_library_config_def set_namespaced_def
        alloc_def modify_def)
qed

lemma get_library_config_by_copy:
  assumes "prefs_copies d" and "no_json_entry d s" and "settings s = Some b"
    and "b < next_addr s"
  shows "detached d (snd (get_library_config d s)) (fst (get_library_config d s))
           ((heap s b)\<lparr>SchemaVersion := Some DEFAULT_SCHEMA_VERSION\<rparr>)"
    and "heap (snd (get_library_config d s)) (fst (get_library_config d s))
           = (heap s b)\<lparr>SchemaVersion := Some DEFAULT_SCHEMA_VERSION\<rparr>"
    and "writes (snd (get_library_config d s))
           = writes s @ (if SchemaVersion (heap s b) = Some DEFAULT_SCHEMA_VERSION then []
                         else [(heap s b)\<lparr>SchemaVersion := Some DEFAULT_SCHEMA_VERSION\<rparr>])"
  using assms
  by (auto simp add: get_library_config_no_json get_namespaced_def alloc_def detached_def
      migrate_library_config_if_required_def set_library_config_def set_namespaced_def
      modify_def no_json_entry_def Let_def DEFAULT_SCHEMA_VERSION_def
      split: option.splits)


lemma detached_stored_put:
  "detached d s a S \<Longrightarrow> detached d (set_exemption_list d k v (modify a f s)) a
     (put_exemptions k v S)"
  by (rule set_exemption_list_detached(1)) (rule detached_modify)

lemma discard_previous_maps_detached:
  assumes "detached d s a S"
  shows "detached d (discard_previous_maps d a s) a
           (let S1 = (if bookNotDuplicates (heap s a) \<noteq> None
                      then S\<lparr>bookExemptions := Some []\<rparr> else S)
            in if authorNotDuplicates (heap s a) \<noteq> None
               then S1\<lparr>authorExemptions := Some []\<rparr> else S1)"
    and "heap (discard_previous_maps d a s) a =
           (let L1 = (if bookNotDuplicates (heap s a) \<noteq> None
                      then (heap s a)\<lparr>bookNotDuplicates := None\<rparr> else heap s a)
            in if authorNotDuplicates (heap s a) \<noteq> None
               then L1\<lparr>authorNotDuplicates := None\<rparr> else L1)"
    and "writes (discard_previous_maps d a s) =
           (let S1 = (if bookNotDuplicates (heap s a) \<noteq> None
                      then S\<lparr>bookExemptions := Some []\<rparr> else S)
            in writes s
               @ (if bookNotDuplicates (heap s a) \<noteq> None then [S1] else [])
               @ (if authorNotDuplicates (heap s a) \<noteq> None
                  then [S1\<lparr>authorExemptions := Some []\<rparr>] else []))"
proof -
  define S1 where "S1 = (if bookNotDuplicates (heap s a) \<noteq> None
                      then S\<lparr>bookExemptions := Some []\<rparr> else S)"
  define s2 where "s2 = (if bookNotDuplicates (heap s a) \<noteq> None
                then set_exemption_list d KEY_BOOK_EXEMPTIONS []
                       (modify a (\<lambda>c. c\<lparr>bookNotDuplicates := None\<rparr>) s)
                else s)"
  note m1 = detached_modify [OF assms, of "\<lambda>c. c\<lparr>bookNotDuplicates := None\<rparr>"]
  note e1 = set_exemption_list_detached [OF m1, of KEY_BOOK_EXEMPTIONS "[]"]
  have s2: "detached d s2 a S1"
    using assms e1(1) by (simp add: s2_def S1_def)
  have h2: "heap s2 a = (if bookNotDuplicates (heap s a) \<noteq> None
                      then (heap s a)\<lparr>bookNotDuplicates := None\<rparr> else heap s a)"
    using e1(2) by (simp add: s2_def)
  have w2: "writes s2 = writes s @ (if bookNotDuplicates (heap s a) \<noteq> None then [S1] else [])"
    using e1(3) by (simp add: s2_def S1_def)
  note m2 = detached_modify [OF s2, of "\<lambda>c. c\<lparr>authorNotDuplicates := None\<rparr>"]
  note e2 = set_exemption_list_detached [OF m2, of KEY_AUTHOR_EXEMPTIONS "[]"]
  have d: "discard_previous_maps d a s =
             (if authorNotDuplicates (heap s2 a) \<noteq> None
              then set_exemption_list d KEY_AUTHOR_EXEMPTIONS []
                     (modify a (\<lambda>c. c\<lparr>authorNotDuplicates := None\<rparr>) s2)
              else s2)"
    by (simp add: discard_previous_maps_def s2_def Let_def)
  have a2: "authorNotDuplicates (heap s2 a) = authorNotDuplicates (heap s a)"
    by (simp add: h2)
  show "detached d (discard_previous_maps d a s) a
           (let S1 = (if bookNotDuplicates (heap s a) \<noteq> None
                      then S\<lparr>bookExemptions := Some []\<rparr> else S)
            in if authorNotDuplicates (heap s a) \<noteq> None
               then S1\<lparr>authorExemptions := Some []\<rparr> else S1)"
    using s2 e2(1) by (auto simp add: d a2 Let_def S1_def)
  show "heap (discard_previous_maps d a s) a =
           (let L1 = (if bookNotDuplicates (heap s a) \<noteq> None
                      then (heap s a)\<lparr>bookNotDuplicates := None\<rparr> else heap s a)
            in if authorNotDuplicates (heap s a) \<noteq> None
               then L1\<lparr>authorNotDuplicates := None\<rparr> else L1)"
    using e2(2) h2 by (simp add: d a2 Let_def)
  show "writes (discard_previous_maps d a s) =
           (let S1 = (if bookNotDuplicates (heap s a) \<noteq> None
                      then S\<lparr>bookExemptions := Some []\<rparr> else S)
            in writes s
               @ (if bookNotDuplicates (heap s a) \<noteq> None then [S1] else [])
               @ (if authorNotDuplicates (heap s a) \<noteq> None
                  then [S1\<lparr>authorExemptions := Some []\<rparr>] else []))"
    using e2(3) w2 by (auto simp add: d a2 Let_def S1_def)
qed

lemma prune_book_exemptions_detached:
  assumes "detached d s a S"
  shows "detached d (snd (prune_book_exemptions d a s)) a
           (case bookExemptions (heap s a) of
              None \<Rightarrow> S
            | Some st \<Rightarrow>
                if \<exists>l\<in>set st. filter (has_id d) l \<noteq> l
                then S\<lparr>bookExemptions := Some (pruned_books d st)\<rparr> else S)"
    and "authorExemptions (heap (snd (prune_book_exemptions d a s)) a)
           = authorExemptions (heap s a)"
    and "writes (snd (prune_book_exemptions d a s)) =
           writes s @
           (case bookExemptions (heap s a) of
              None \<Rightarrow> []
            | Some st \<Rightarrow>
                if \<exists>l\<in>set st. filter (has_id d) l \<noteq> l
                then [S\<lparr>bookExemptions := Some (pruned_books d st)\<rparr>] else [])"
proof -
  note m = detached_modify [OF assms, of "\<lambda>c. c\<lparr>bookExemptions := Some v\<rparr>" for v]
  note e = set_exemption_list_detached [OF m, where k = KEY_BOOK_EXEMPTIONS]
  show "detached d (snd (prune_book_exemptions d a s)) a
           (case bookExemptions (heap s a) of
              None \<Rightarrow> S
            | Some st \<Rightarrow>
                if \<exists>l\<in>set st. filter (has_id d) l \<noteq> l
                then S\<lparr>bookExemptions := Some (pruned_books d st)\<rparr> else S)"
    using assms m e(1)
    by (simp add: prune_book_exemptions_def prune_loop_eq pruned_books_def Let_def
        split: option.split)
  show "authorExemptions (heap (snd (prune_book_exemptions d a s)) a)
           = authorExemptions (heap s a)"
    using e(2)
    by (simp add: prune_book_exemptions_def prune_loop_eq Let_def split: option.split)
  show "writes (snd (prune_book_exemptions d a s)) =
           writes s @
           (case bookExemptions (heap s a) of
              None \<Rightarrow> []
            | Some st \<Rightarrow>
                if \<exists>l\<in>set st. filter (has_id d) l \<noteq> l
                then [S\<lparr>bookExemptions := Some (pruned_books d st)\<rparr>] else [])"
    using e(3)
    by (simp add: prune_book_exemptions_def prune_loop_eq pruned_books_def Let_def
        split: option.split)
qed

lemma pruned_books_Nil [simp]: "pruned_books d [] = []"
  by (simp add: pruned_books_def)

lemma get_exemption_lists_by_copy:
  assumes "prefs_copies d" and "no_json_entry d s" and "settings s = Some b"
    and "b < next_addr s"
    and c0: "c0 = (heap s b)\<lparr>SchemaVersion := Some DEFAULT_SCHEMA_VERSION\<rparr>"
    and S1: "S1 = (if bookNotDuplicates c0 \<noteq> None
                   then c0\<lparr>bookExemptions := Some []\<rparr> else c0)"
    and S2: "S2 = (if authorNotDuplicates c0 \<noteq> None
                   then S1\<lparr>authorExemptions := Some []\<rparr> else S1)"
    and S3: "S3 = (case bookExemptions c0 of
                     None \<Rightarrow> S2
                   | Some st \<Rightarrow>
                       if \<exists>l\<in>set st. filter (has_id d) l \<noteq> l
                       then S2\<lparr>bookExemptions := Some (pruned_books d st)\<rparr> else S2)"
  shows "fst (get_exemption_lists d s)
           = (pruned_books d (get_exemptions KEY_BOOK_EXEMPTIONS c0),
              get_exemptions KEY_AUTHOR_EXEMPTIONS c0)"
    and "stored_record (snd (get_exemption_lists d s)) = Some S3"
    and "writes (snd (get_exemption_lists d s)) =
           writes s
           @ (if SchemaVersion (heap s b) = Some DEFAULT_SCHEMA_VERSION then [] else [c0])
           @ (if bookNotDuplicates c0 \<noteq> None then [S1] else [])
           @ (if authorNotDuplicates c0 \<noteq> None then [S2] else [])
           @ (case bookExemptions c0 of
                None \<Rightarrow> []
              | Some st \<Rightarrow> if \<exists>l\<in>set st. filter (has_id d) l \<noteq> l then [S3] else [])"
proof -
  note r = get_library_config_by_copy [OF assms(1-4)]
  define lc where "lc = fst (get_library_config d s)"
  define s1 where "s1 = snd (get_library_config d s)"
  have g: "get_library_config d s = (lc, s1)"
    by (simp add: lc_def s1_def)
  have dt1: "detached d s1 lc c0" and h1: "heap s1 lc = c0"
    using r(1,2) by (simp_all add: s1_def lc_def c0)
  define s3 where "s3 = discard_previous_maps d lc s1"
  note dm = discard_previous_maps_detached [OF dt1]
  have dt3: "detached d s3 lc S2"
    using dm(1) unfolding h1 by (auto simp add: s3_def S1 S2 Let_def split: if_splits)
  have b3: "bookExemptions (heap s3 lc) = bookExemptions c0"
    and a3: "authorExemptions (heap s3 lc) = authorExemptions c0"
    using dm(2) unfolding h1 by (simp_all add: s3_def Let_def)
  define s4 where "s4 = snd (prune_book_exemptions d lc s3)"
  note pr = prune_book_exemptions_detached [OF dt3]
  have dt4: "detached d s4 lc S3"
    using pr(1) unfolding b3 by (simp add: s4_def S3)
  have a4: "authorExemptions (heap s4 lc) = authorExemptions c0"
    using pr(2) by (simp add: s4_def a3)
  have ge: "get_exemption_lists d s =
              ((fst (prune_book_exemptions d lc s3),
                get_exemptions KEY_AUTHOR_EXEMPTIONS (heap s4 lc)), s4)"
    by (simp add: get_exemption_lists_def g s3_def s4_def Let_def split_beta)
  show "fst (get_exemption_lists d s)
           = (pruned_books d (get_exemptions KEY_BOOK_EXEMPTIONS c0),
              get_exemptions KEY_AUTHOR_EXEMPTIONS c0)"
    by (simp add: ge prune_book_exemptions_fst b3 a4 split: option.split)
  show "stored_record (snd (get_exemption_lists d s)) = Some S3"
    using detached_stored [OF dt4] by (simp add: ge)
  show "writes (snd (get_exemption_lists d s)) =
           writes s
           @ (if SchemaVersion (heap s b) = Some DEFAULT_SCHEMA_VERSION then [] else [c0])
           @ (if bookNotDuplicates c0 \<noteq> None then [S1] else [])
           @ (if authorNotDuplicates c0 \<noteq> None then [S2] else [])
           @ (case bookExemptions c0 of
                None \<Rightarrow> []
              | Some st \<Rightarrow> if \<exists>l\<in>set st. filter (has_id d) l \<noteq> l then [S3] else [])"
    using pr(3) dm(3) r(3) unfolding b3 h1
    by (simp add: ge s4_def [symmetric] s3_def [symmetric] s1_def [symmetric]
        c0 [symmetric] S1 S2 S3 Let_def split: option.split)
qed

lemma stored_recordD:
  assumes "wf s" and "stored_record s = Some c"
  obtains b where "settings s = Some b" and "b < next_addr s" and "heap s b = c"
  using assms by (auto simp add: stored_record_def wf_def)

lemma pruned_books_valid:
  "\<forall>l\<in>set st. \<forall>x\<in>set l. has_id d x \<Longrightarrow> pruned_books d st = st"
  by (auto simp add: pruned_books_def filter_id_conv)

lemma get_exemption_lists_first_access:
  assumes "settings s = None" and "no_json_entry d s"
  shows "fst (get_exemption_lists d s) = ([], [])"
    and "writes (snd (get_exemption_lists d s)) = writes s"
  using assms
  by (simp_all add: get_exemption_lists_def get_library_config_first_access alloc_def
      discard_previous_maps_def prune_book_exemptions_def prune_loop_def modify_def
      DEFAULT_LIBRARY_VALUES_def DEFAULT_SCHEMA_VERSION_def)

subsection \<open>Saving a legacy record, and calling twice\<close>

text \<open>
  A record of an older schema version that waits in the JSON file is saved to
  \<^verbatim>\<open>db.prefs\<close>, marked with the current version.
\<close>

lemma legacy_record_is_saved:
  assumes "libraries s = Some libs" and "map_of libs (library_uuid d) = Some c"
    and "SchemaVersion c \<noteq> Some DEFAULT_SCHEMA_VERSION"
  shows "stored_record (snd (get_library_config d s))
           = Some (c\<lparr>SchemaVersion := Some DEFAULT_SCHEMA_VERSION\<rparr>)"
    and "writes (snd (get_library_config d s))
           = writes s @ [c\<lparr>SchemaVersion := Some DEFAULT_SCHEMA_VERSION\<rparr>]"
  using assms
  by (auto simp add: get_library_config_def take_from_json_def
      migrate_library_config_if_required_def set_library_config_def set_namespaced_def
      modify_def alloc_def stored_record_def Let_def DEFAULT_SCHEMA_VERSION_def
      split: option.split)

lemma pruned_books_fixed:
  "\<forall>l\<in>set (pruned_books d st). filter (has_id d) l = l"
  by (auto simp add: pruned_books_def)

lemma pruned_books_idem: "pruned_books d (pruned_books d st) = pruned_books d st"
  using pruned_books_fixed [of d st] by (simp add: pruned_books_def [of d "pruned_books d st"])

lemma SchemaVersion_same [simp]:
  "SchemaVersion c = Some v \<Longrightarrow> c\<lparr>SchemaVersion := Some v\<rparr> = c"
  by (cases c) simp

lemma get_exemption_lists_shared_again:
  assumes "shared d s b" and "bookNotDuplicates (heap s b) = None"
    and "authorNotDuplicates (heap s b) = None"
    and "\<forall>st. bookExemptions (heap s b) = Some st \<longrightarrow> pruned_books d st = st"
  shows "fst (get_exemption_lists d s)
           = (get_exemptions KEY_BOOK_EXEMPTIONS (heap s b),
              get_exemptions KEY_AUTHOR_EXEMPTIONS (heap s b))"
    and "stored_record (snd (get_exemption_lists d s)) = stored_record s"
    and "writes (snd (get_exemption_lists d s)) = writes s"
proof -
  from assms(1) have h: "\<not> prefs_copies d" "no_json_entry d s" "settings s = Some b"
    "b < next_addr s" "SchemaVersion (heap s b) = Some DEFAULT_SCHEMA_VERSION"
    by (simp_all add: shared_def)
  note e = get_exemption_lists_by_reference [OF h(1-4) refl refl refl refl]
  have nochange: "bookExemptions (heap s b) = Some st \<Longrightarrow>
      \<not> (\<exists>l\<in>set st. filter (has_id d) l \<noteq> l)" for st
    using assms(4) pruned_books_fixed [of d st] by auto
  show "fst (get_exemption_lists d s)
           = (get_exemptions KEY_BOOK_EXEMPTIONS (heap s b),
              get_exemptions KEY_AUTHOR_EXEMPTIONS (heap s b))"
    unfolding e using h(5) assms(2-4) by (simp split: option.split)
  show "stored_record (snd (get_exemption_lists d s)) = stored_record s"
    unfolding e using h(5) assms(2-4) shared_stored [OF assms(1)]
    by (simp split: option.split)
  show "writes (snd (get_exemption_lists d s)) = writes s"
    unfolding e using h(5) assms(2-4) nochange by (simp split: option.split)
qed


lemma get_exemption_lists_first_access_state:
  assumes "settings s = None" and "no_json_entry d s"
  shows "settings (snd (get_exemption_lists d s)) = None"
    and "no_json_entry d (snd (get_exemption_lists d s))"
    and "stored_record (snd (get_exemption_lists d s)) = None"
  using assms
  by (simp_all add: get_exemption_lists_def get_library_config_first_access alloc_def
      discard_previous_maps_def prune_book_exemptions_def prune_loop_def modify_def
      DEFAULT_LIBRARY_VALUES_def DEFAULT_SCHEMA_VERSION_def no_json_entry_def
      stored_record_def)

lemma get_library_config_legacy_by_reference:
  assumes "\<not> prefs_copies d" and "libraries s = Some libs"
    and "map_of libs (library_uuid d) = Some c"
    and "SchemaVersion c \<noteq> Some DEFAULT_SCHEMA_VERSION"
  shows "fst (get_library_config d s) = next_addr s"
    and "shared d (snd (get_library_config d s)) (next_addr s)"
proof -
  show "fst (get_library_config d s) = next_addr s"
    using assms
    by (simp add: get_library_config_def take_from_json_def alloc_def Let_def)
  have "no_json_entry d (snd (get_library_config d s))"
    by (rule no_json_after_get)
  then show "shared d (snd (get_library_config d s)) (next_addr s)"
    using assms
    by (auto simp add: shared_def get_library_config_def take_from_json_def
        migrate_library_config_if_required_def set_library_config_def set_namespaced_def
        modify_def alloc_def Let_def DEFAULT_SCHEMA_VERSION_def split: option.split)
qed

lemma second_call_shared:
  assumes g: "get_library_config d s = (b, s1)" and sh1: "shared d s1 b"
  shows "fst (get_exemption_lists d (snd (get_exemption_lists d s)))
           = fst (get_exemption_lists d s)
         \<and> writes (snd (get_exemption_lists d (snd (get_exemption_lists d s))))
           = writes (snd (get_exemption_lists d s))
         \<and> stored_record (snd (get_exemption_lists d (snd (get_exemption_lists d s))))
           = stored_record (snd (get_exemption_lists d s))"
proof -
  note e = get_exemption_lists_shared [OF g sh1 refl refl refl refl]
  define s' where "s' = snd (get_exemption_lists d s)"
  have sh: "shared d s' b"
    using e(3) by (simp add: s'_def)
  have b': "bookNotDuplicates (heap s' b) = None"
    and a': "authorNotDuplicates (heap s' b) = None"
    unfolding s'_def e(4) by (simp_all split: option.split)
  have p': "\<forall>st. bookExemptions (heap s' b) = Some st \<longrightarrow> pruned_books d st = st"
    unfolding s'_def e(4) by (auto simp add: pruned_books_idem split: option.splits)
  note again = get_exemption_lists_shared_again [OF sh b' a' p']
  have "fst (get_exemption_lists d s') = fst (get_exemption_lists d s)"
    unfolding again unfolding s'_def e(4) e(1) ..
  then show ?thesis
    using again(2,3) by (simp add: s'_def)
qed

text \<open>
  On a store that hands out the stored object, a second call of
  \<^verbatim>\<open>get_exemption_lists\<close> returns what the first returned, writes nothing and leaves
  the stored record as it is, unless the first call found a record of the current schema
  version waiting in the JSON file.
\<close>

lemma second_call_by_reference:
  assumes "\<not> prefs_copies d" and "wf s"
    and "\<forall>libs c. libraries s = Some libs \<and> map_of libs (library_uuid d) = Some c
           \<longrightarrow> SchemaVersion c \<noteq> Some DEFAULT_SCHEMA_VERSION"
  shows "fst (get_exemption_lists d (snd (get_exemption_lists d s)))
           = fst (get_exemption_lists d s)
         \<and> writes (snd (get_exemption_lists d (snd (get_exemption_lists d s))))
           = writes (snd (get_exemption_lists d s))
         \<and> stored_record (snd (get_exemption_lists d (snd (get_exemption_lists d s))))
           = stored_record (snd (get_exemption_lists d s))"
proof (cases "no_json_entry d s")
  case False
  then obtain libs c where l: "libraries s = Some libs" "map_of libs (library_uuid d) = Some c"
    by (auto simp add: no_json_entry_def split: option.splits)
  with assms(3) have sv: "SchemaVersion c \<noteq> Some DEFAULT_SCHEMA_VERSION"
    by blast
  note r = get_library_config_legacy_by_reference [OF assms(1) l sv]
  have g: "get_library_config d s = (next_addr s, snd (get_library_config d s))"
    using r(1) by (simp add: prod_eq_iff)
  show ?thesis
    by (rule second_call_shared [OF g r(2)])
next
  case nj: True
  show ?thesis
  proof (cases "settings s")
    case None
    note st = get_exemption_lists_first_access_state [OF None nj]
    show ?thesis
      using get_exemption_lists_first_access [OF None nj]
        get_exemption_lists_first_access [OF st(1,2)]
        get_exemption_lists_first_access_state [OF st(1,2)] st(3)
      by simp
  next
    case (Some b)
    with assms(2) have lt: "b < next_addr s"
      by (simp add: wf_def)
    note r = get_library_config_by_reference [OF assms(1) nj Some lt]
    have g: "get_library_config d s = (b, snd (get_library_config d s))"
      using r(1) by (simp add: prod_eq_iff)
    show ?thesis
      by (rule second_call_shared [OF g r(2)])
  qed
qed

lemmas example_defs =
  example_db_def fresh_state_def json_state_def stored_state_def current_config_def
  stale_config_def v1_config_def keeping_config_def waiting_state_def

lemmas accessor_defs =
  get_library_config_def take_from_json_def get_namespaced_def set_namespaced_def
  set_library_config_def migrate_library_config_if_required_def set_exemption_list_def
  get_exemption_lists_def discard_previous_maps_def prune_book_exemptions_def
  modify_def alloc_def DEFAULT_LIBRARY_VALUES_def DEFAULT_SCHEMA_VERSION_def

section \<open>The claims\<close>

text \<open>
  C1. A record of the library that waits in the JSON file is taken out of the file by
  \<^verbatim>\<open>get_library_config\<close>, and is meant to be saved to \<^verbatim>\<open>db.prefs\<close> by the
  schema migration that follows. When the record already carries schema version 1.5
  the migration returns early: the record \<^verbatim>\<open>{'bookExemptions': [[1, 2]],
  'SchemaVersion': 1.5}\<close> is returned and has left the JSON file after the call, nothing
  was written to \<^verbatim>\<open>db.prefs\<close> and \<^verbatim>\<open>db.prefs\<close> holds nothing, on a store of either
  kind. (A waiting record of any other schema version is saved: \<open>legacy_record_is_saved\<close>.)
\<close>

theorem legacy_record_of_current_schema_is_not_saved:
  "libraries (json_state current_config) = Some [(''lib-1'', current_config)]
   \<and> heap (snd (get_library_config (example_db False) (json_state current_config)))
        (fst (get_library_config (example_db False) (json_state current_config)))
      = current_config
   \<and> libraries (snd (get_library_config (example_db False) (json_state current_config))) = None
   \<and> settings (snd (get_library_config (example_db False) (json_state current_config))) = None
   \<and> writes (snd (get_library_config (example_db False) (json_state current_config))) = []
   \<and> libraries (snd (get_library_config (example_db True) (json_state current_config))) = None
   \<and> settings (snd (get_library_config (example_db True) (json_state current_config))) = None
   \<and> writes (snd (get_library_config (example_db True) (json_state current_config))) = []"
  by (simp add: accessor_defs example_defs)

text \<open>
  C2. The migration out of the JSON file happens once: after \<^verbatim>\<open>get_library_config(db)\<close>
  the library uuid is not a key of \<^verbatim>\<open>plugin_prefs['libraries']\<close>; the key
  \<^verbatim>\<open>'libraries'\<close> itself is gone when the uuid was the only key under it; and on the
  resulting state the first block of \<^verbatim>\<open>get_library_config\<close> finds no record and
  changes nothing, so a second call migrates nothing from the JSON file.
\<close>

theorem legacy_migration_happens_once:
  "(case libraries (snd (get_library_config d s)) of
      None \<Rightarrow> True
    | Some libs' \<Rightarrow> map_of libs' (library_uuid d) = None)
   \<and> (\<forall>libs. libraries s = Some libs \<and> map_of libs (library_uuid d) \<noteq> None
         \<and> (\<forall>k\<in>fst ` set libs. k = library_uuid d)
        \<longrightarrow> libraries (snd (get_library_config d s)) = None)
   \<and> take_from_json d (snd (get_library_config d s)) = (None, snd (get_library_config d s))"
proof (intro conjI allI impI)
  show "case libraries (snd (get_library_config d s)) of
      None \<Rightarrow> True
    | Some libs' \<Rightarrow> map_of libs' (library_uuid d) = None"
    using no_json_after_get [of d s] by (simp add: no_json_entry_def)
next
  fix libs
  assume a: "libraries s = Some libs \<and> map_of libs (library_uuid d) \<noteq> None
         \<and> (\<forall>k\<in>fst ` set libs. k = library_uuid d)"
  then have "AList.delete (library_uuid d) libs = []"
    by (simp add: delete_only_key)
  with a show "libraries (snd (get_library_config d s)) = None"
    by (auto simp add: libraries_get_library_config take_from_json_def alloc_def Let_def)
next
  show "take_from_json d (snd (get_library_config d s)) = (None, snd (get_library_config d s))"
    by (rule take_from_json_none) (rule no_json_after_get)
qed

theorem legacy_migration_happens_once_witness:
  "libraries (json_state stale_config) = Some [(''lib-1'', stale_config)]
   \<and> libraries (snd (get_library_config (example_db False) (json_state stale_config))) = None
   \<and> take_from_json (example_db False)
        (snd (get_library_config (example_db False) (json_state stale_config)))
      = (None, snd (get_library_config (example_db False) (json_state stale_config)))"
  using legacy_migration_happens_once [of "example_db False" "json_state stale_config"]
  by (simp add: example_defs)

text \<open>
  C3. Stale references are pruned: every book id in every list of the book exemptions
  that \<^verbatim>\<open>get_exemption_lists(db)\<close> returns satisfies \<^verbatim>\<open>db.data.has_id\<close>.
\<close>

theorem returned_book_exemptions_are_in_library:
  "\<forall>l\<in>set (fst (fst (get_exemption_lists d s))). \<forall>book_id\<in>set l. has_id d book_id"
  using prune_book_exemptions_valid
  by (simp add: get_exemption_lists_def Let_def split_beta)

theorem returned_book_exemptions_are_in_library_witness:
  "fst (fst (get_exemption_lists (example_db False) (stored_state stale_config)))
     = [[PNum 1, PNum 2]]
   \<and> has_id (example_db False) (PNum 1) \<and> has_id (example_db False) (PNum 2)"
  using returned_book_exemptions_are_in_library
          [of "example_db False" "stored_state stale_config"]
  by (simp add: accessor_defs example_defs prune_loop_eq Let_def)

text \<open>
  C4. The schema migration does nothing when it has been applied: for a
  \<open>library_config\<close> whose \<^verbatim>\<open>SchemaVersion\<close> is 1.5,
  \<^verbatim>\<open>migrate_library_config_if_required\<close> leaves the whole state as it is: the dict is
  not modified and nothing is written to the per-library store.
\<close>

theorem schema_migration_noop_when_current:
  "SchemaVersion (heap s library_config) = Some (PNum (3 / 2)) \<Longrightarrow>
   migrate_library_config_if_required d library_config s = s"
  by (simp add: migrate_library_config_if_required_def DEFAULT_SCHEMA_VERSION_def)

theorem schema_migration_noop_when_current_witness:
  "SchemaVersion (heap (stored_state current_config) 0) = Some (PNum (3 / 2))
   \<and> migrate_library_config_if_required (example_db False) 0 (stored_state current_config)
       = stored_state current_config"
  using schema_migration_noop_when_current
          [of "stored_state current_config" 0 "example_db False"]
  by (simp add: example_defs)

text \<open>
  C5. A second call of \<^verbatim>\<open>get_exemption_lists(db)\<close> is meant to repeat the first. It
  does not when the first call took a record of schema version 1.5 out of the JSON file:
  that record was returned but never saved (see C1), so with
  \<^verbatim>\<open>{'bookExemptions': [[1, 2]], 'SchemaVersion': 1.5}\<close> waiting in the JSON file the
  first call returns \<^verbatim>\<open>([[1, 2]], [])\<close> and the second returns \<^verbatim>\<open>([], [])\<close>, on a
  store of either kind. (On a store that hands out the stored object this is the only
  way for the second call to differ: \<open>second_call_by_reference\<close>.)
\<close>

theorem second_call_differs_after_unsaved_legacy_record:
  "fst (get_exemption_lists (example_db False) (json_state current_config))
     = ([[PNum 1, PNum 2]], [])
   \<and> fst (get_exemption_lists (example_db False)
          (snd (get_exemption_lists (example_db False) (json_state current_config))))
     = ([], [])
   \<and> fst (get_exemption_lists (example_db True) (json_state current_config))
     = ([[PNum 1, PNum 2]], [])
   \<and> fst (get_exemption_lists (example_db True)
          (snd (get_exemption_lists (example_db True) (json_state current_config))))
     = ([], [])"
  by (simp add: accessor_defs example_defs prune_loop_eq Let_def)

text \<open>
  C6. Absent keys default silently: when \<^verbatim>\<open>db.prefs\<close> holds no record and the JSON
  file has none for the library, \<^verbatim>\<open>get_library_config(db)\<close> returns the default
  record, and \<^verbatim>\<open>get_exemption_lists(db)\<close> returns a pair of empty lists. (The model
  has no failing branch: both functions return on every state.)
\<close>

theorem first_access_returns_defaults:
  assumes "settings s = None" and "no_json_entry d s"
  shows "heap (snd (get_library_config d s)) (fst (get_library_config d s)) =
           \<lparr>lastLibraryCompare = Some (PStr []), bookExemptions = Some [],
            authorExemptions = Some [], SchemaVersion = Some (PNum (3 / 2)),
            bookNotDuplicates = None, authorNotDuplicates = None\<rparr>
         \<and> fst (get_exemption_lists d s) = ([], [])"
  using assms
  by (simp add: get_exemption_lists_def get_library_config_first_access alloc_def
      discard_previous_maps_def prune_book_exemptions_def prune_loop_def modify_def
      DEFAULT_LIBRARY_VALUES_def DEFAULT_SCHEMA_VERSION_def)

theorem first_access_returns_defaults_witness:
  "settings fresh_state = None \<and> no_json_entry (example_db False) fresh_state
   \<and> heap (snd (get_library_config (example_db False) fresh_state))
        (fst (get_library_config (example_db False) fresh_state)) =
           \<lparr>lastLibraryCompare = Some (PStr []), bookExemptions = Some [],
            authorExemptions = Some [], SchemaVersion = Some (PNum (3 / 2)),
            bookNotDuplicates = None, authorNotDuplicates = None\<rparr>
   \<and> fst (get_exemption_lists (example_db False) fresh_state) = ([], [])"
proof -
  have h1: "settings fresh_state = None"
    by (simp add: fresh_state_def)
  have h2: "no_json_entry (example_db False) fresh_state"
    by (simp add: fresh_state_def no_json_entry_def)
  show ?thesis
    using h1 h2 first_access_returns_defaults [OF h1 h2] by simp
qed

text \<open>
  C7. Saving overwrites: after \<^verbatim>\<open>set_exemption_list(db, k, v)\<close>, for \<open>k\<close> one of
  \<^verbatim>\<open>'bookExemptions'\<close> and \<^verbatim>\<open>'authorExemptions'\<close>, the record that
  \<^verbatim>\<open>get_library_config(db)\<close> returns maps \<open>k\<close> to exactly \<open>v\<close>. This holds on a store
  of either kind, and also when a record of the library was waiting in the JSON file.
\<close>

theorem saved_exemption_list_is_read_back:
  assumes "wf s"
  shows "exemptions_at k
           (heap (snd (get_library_config d (set_exemption_list d k v s)))
                 (fst (get_library_config d (set_exemption_list d k v s))))
         = Some v"
proof -
  obtain g t where gt: "get_library_config d s = (g, t)"
    by (cases "get_library_config d s")
  have nj: "no_json_entry d t"
    using no_json_after_get [of d s] gt by simp
  have lt: "g < next_addr t"
    using get_library_config_addr [OF assms, of d] gt by simp
  have sv: "SchemaVersion (put_exemptions k v (heap t g)) = Some DEFAULT_SCHEMA_VERSION"
    using schema_get_library_config [of d s] gt by simp
  have "set_exemption_list d k v s = set_namespaced d g (modify g (put_exemptions k v) t)"
    by (simp add: set_exemption_list_def gt set_library_config_def)
  then show ?thesis
    using get_after_save [where f = "put_exemptions k v", OF nj lt sv] by simp
qed

theorem saved_exemption_list_is_read_back_witness:
  "wf (stored_state stale_config)
   \<and> exemptions_at KEY_BOOK_EXEMPTIONS
        (heap (snd (get_library_config (example_db True)
                      (set_exemption_list (example_db True) KEY_BOOK_EXEMPTIONS [[PNum 2]]
                         (stored_state stale_config))))
              (fst (get_library_config (example_db True)
                      (set_exemption_list (example_db True) KEY_BOOK_EXEMPTIONS [[PNum 2]]
                         (stored_state stale_config)))))
      = Some [[PNum 2]]"
proof -
  have h: "wf (stored_state stale_config)"
    by (simp add: wf_def example_defs)
  show ?thesis
    using h saved_exemption_list_is_read_back [OF h] by simp
qed

text \<open>
  C8. The record \<^verbatim>\<open>get_library_config(db)\<close> returns has \<^verbatim>\<open>SchemaVersion\<close> 1.5,
  whatever the stored record or the record of the JSON file carried.
\<close>

theorem returned_config_has_current_schema:
  "SchemaVersion (heap (snd (get_library_config d s)) (fst (get_library_config d s)))
     = Some (PNum (3 / 2))"
  using schema_migrate
  by (simp add: get_library_config_def Let_def split_beta DEFAULT_SCHEMA_VERSION_def)

theorem returned_config_has_current_schema_witness:
  "SchemaVersion (heap (snd (get_library_config (example_db False) (json_state stale_config)))
                       (fst (get_library_config (example_db False) (json_state stale_config))))
     = Some (PNum (3 / 2))
   \<and> SchemaVersion stale_config = None"
  using returned_config_has_current_schema [of "example_db False" "json_state stale_config"]
  by (simp add: example_defs)

text \<open>
  C9. The maps of version 1.0 are discarded, not converted. For a library with no record
  waiting in the JSON file, whose stored record \<open>c\<close> has the key
  \<^verbatim>\<open>'bookNotDuplicates'\<close> (resp. \<^verbatim>\<open>'authorNotDuplicates'\<close>),
  \<^verbatim>\<open>get_exemption_lists(db)\<close> writes a record with an empty list under
  \<^verbatim>\<open>'bookExemptions'\<close> (resp. \<^verbatim>\<open>'authorExemptions'\<close>) to the per-library store. What
  becomes of the legacy key depends on the store: when it hands out the stored object,
  the key is no longer in the stored record after the call and the returned list is
  empty; when it hands out copies, the key is still in the stored record, and the
  returned list is made from the record as it was read: the pruned book exemptions
  (resp. the author exemptions as they are).
\<close>

theorem previous_maps_are_discarded:
  assumes "wf s" and "no_json_entry d s" and "stored_record s = Some c"
  shows "(bookNotDuplicates c \<noteq> None \<longrightarrow>
            (\<exists>w\<in>set (drop (length (writes s)) (writes (snd (get_exemption_lists d s)))).
               bookExemptions w = Some [])
          \<and> (\<exists>c'. stored_record (snd (get_exemption_lists d s)) = Some c'
                \<and> (if prefs_copies d
                    then bookNotDuplicates c' = bookNotDuplicates c
                         \<and> fst (fst (get_exemption_lists d s))
                             = pruned_books d (get_exemptions KEY_BOOK_EXEMPTIONS c)
                    else bookNotDuplicates c' = None
                         \<and> fst (fst (get_exemption_lists d s)) = [])))
       \<and> (authorNotDuplicates c \<noteq> None \<longrightarrow>
            (\<exists>w\<in>set (drop (length (writes s)) (writes (snd (get_exemption_lists d s)))).
               authorExemptions w = Some [])
          \<and> (\<exists>c'. stored_record (snd (get_exemption_lists d s)) = Some c'
                \<and> (if prefs_copies d
                    then authorNotDuplicates c' = authorNotDuplicates c
                         \<and> snd (fst (get_exemption_lists d s))
                             = get_exemptions KEY_AUTHOR_EXEMPTIONS c
                    else authorNotDuplicates c' = None
                         \<and> snd (fst (get_exemption_lists d s)) = [])))"
proof -
  from assms(1,3) obtain b where b: "settings s = Some b" "b < next_addr s" "heap s b = c"
    by (rule stored_recordD)
  show ?thesis
  proof (cases "prefs_copies d")
    case True
    note e = get_exemption_lists_by_copy [OF True assms(2) b(1,2) refl refl refl refl]
    show ?thesis
      unfolding e b(3) using True
      by (auto split: option.split)
  next
    case False
    note e = get_exemption_lists_by_reference [OF False assms(2) b(1,2) refl refl refl refl]
    show ?thesis
      unfolding e b(3) using False
      by (auto split: option.split)
  qed
qed

theorem previous_maps_are_discarded_witness:
  "wf (stored_state v1_config) \<and> no_json_entry (example_db False) (stored_state v1_config)
   \<and> stored_record (stored_state v1_config) = Some v1_config
   \<and> bookNotDuplicates v1_config = Some (PDict [])
   \<and> authorNotDuplicates v1_config = Some (PDict [])
   \<and> fst (get_exemption_lists (example_db False) (stored_state v1_config)) = ([], [])"
proof -
  have h1: "wf (stored_state v1_config)"
    by (simp add: wf_def example_defs)
  have h2: "no_json_entry (example_db False) (stored_state v1_config)"
    by (simp add: no_json_entry_def example_defs)
  have h3: "stored_record (stored_state v1_config) = Some v1_config"
    by (simp add: stored_record_def example_defs)
  have h4: "bookNotDuplicates v1_config = Some (PDict [])"
    and h5: "authorNotDuplicates v1_config = Some (PDict [])"
    and h6: "\<not> prefs_copies (example_db False)"
    by (simp_all add: example_defs)
  show ?thesis
    using h1 h2 h3 h4 h5 h6 previous_maps_are_discarded [OF h1 h2 h3]
    by (auto simp add: prod_eq_iff)
qed

text \<open>
  The claim as it was stated fails on every kind of store. With \<open>v1_config\<close> stored: on
  a store that hands out the stored object, the stored record has lost both legacy keys
  after the call; on a store that hands out copies, the returned book list is
  \<^verbatim>\<open>[[1, 2]]\<close>, not empty. And with a record waiting in the JSON file, that record is
  the one worked on: the returned book list is \<^verbatim>\<open>[[1, 2]]\<close>.
\<close>

theorem previous_maps_counterexample:
  "stored_record (stored_state v1_config) = Some v1_config
   \<and> bookNotDuplicates v1_config = Some (PDict [])
   \<and> stored_record (snd (get_exemption_lists (example_db False) (stored_state v1_config)))
       = Some \<lparr>lastLibraryCompare = None, bookExemptions = Some [],
               authorExemptions = Some [], SchemaVersion = Some (PNum (3 / 2)),
               bookNotDuplicates = None, authorNotDuplicates = None\<rparr>
   \<and> fst (fst (get_exemption_lists (example_db True) (stored_state v1_config)))
       = [[PNum 1, PNum 2]]
   \<and> stored_record waiting_state = Some v1_config
   \<and> fst (fst (get_exemption_lists (example_db False) waiting_state)) = [[PNum 1, PNum 2]]"
  by (simp add: accessor_defs example_defs stored_record_def prune_loop_eq Let_def)

text \<open>
  C10. Author exemptions are never pruned. For a library with no record waiting in the
  JSON file, let \<open>c\<close> be its stored record (the default record when nothing is stored).
  When \<open>c\<close> has no key \<^verbatim>\<open>'authorNotDuplicates'\<close>, \<^verbatim>\<open>get_exemption_lists(db)\<close> returns
  the \<^verbatim>\<open>'authorExemptions'\<close> of \<open>c\<close> as stored, and every record it writes carries that
  same value. When \<open>c\<close> has no key \<^verbatim>\<open>'bookNotDuplicates'\<close> and every id in its book
  exemptions is in the library, the \<^verbatim>\<open>'bookExemptions'\<close> of \<open>c\<close> is returned as stored,
  empty groups included.
\<close>

theorem exemptions_returned_as_stored:
  assumes "wf s" and "no_json_entry d s"
    and "c = (case stored_record s of None \<Rightarrow> DEFAULT_LIBRARY_VALUES | Some r \<Rightarrow> r)"
  shows "(authorNotDuplicates c = None \<longrightarrow>
            snd (fst (get_exemption_lists d s)) = get_exemptions KEY_AUTHOR_EXEMPTIONS c
          \<and> (\<forall>w\<in>set (drop (length (writes s)) (writes (snd (get_exemption_lists d s)))).
                authorExemptions w = authorExemptions c))
       \<and> (bookNotDuplicates c = None
            \<and> (\<forall>l\<in>set (get_exemptions KEY_BOOK_EXEMPTIONS c). \<forall>book_id\<in>set l. has_id d book_id)
          \<longrightarrow>
            fst (fst (get_exemption_lists d s)) = get_exemptions KEY_BOOK_EXEMPTIONS c)"
proof (cases "stored_record s")
  case None
  then have "settings s = None"
    by (simp add: stored_record_def)
  from get_exemption_lists_first_access [OF this assms(2)] show ?thesis
    by (simp add: assms(3) None DEFAULT_LIBRARY_VALUES_def)
next
  case (Some r)
  then have c: "r = c" by (simp add: assms(3))
  from assms(1) Some obtain b where
    b: "settings s = Some b" "b < next_addr s" "heap s b = c"
    unfolding c by (rule stored_recordD)
  show ?thesis
  proof (cases "prefs_copies d")
    case True
    note e = get_exemption_lists_by_copy [OF True assms(2) b(1,2) refl refl refl refl]
    show ?thesis
      unfolding e b(3)
      by (auto simp add: pruned_books_valid split: option.split)
  next
    case False
    note e = get_exemption_lists_by_reference [OF False assms(2) b(1,2) refl refl refl refl]
    show ?thesis
      unfolding e b(3)
      by (auto simp add: pruned_books_valid split: option.split)
  qed
qed

theorem exemptions_returned_as_stored_witness:
  "wf (stored_state keeping_config)
   \<and> no_json_entry (example_db False) (stored_state keeping_config)
   \<and> stored_record (stored_state keeping_config) = Some keeping_config
   \<and> fst (get_exemption_lists (example_db False) (stored_state keeping_config))
       = ([[PNum 1], [], [PNum 2]], [[PStr ''A'', PStr ''Z'']])"
proof -
  have h1: "wf (stored_state keeping_config)"
    by (simp add: wf_def example_defs)
  have h2: "no_json_entry (example_db False) (stored_state keeping_config)"
    by (simp add: no_json_entry_def example_defs)
  have h3: "stored_record (stored_state keeping_config) = Some keeping_config"
    by (simp add: stored_record_def example_defs)
  have h4: "keeping_config
              = (case stored_record (stored_state keeping_config) of
                   None \<Rightarrow> DEFAULT_LIBRARY_VALUES | Some r \<Rightarrow> r)"
    by (simp add: h3)
  show ?thesis
    using h1 h2 h3 exemptions_returned_as_stored [OF h1 h2 h4]
    by (simp add: prod_eq_iff example_db_def keeping_config_def)
qed

text \<open>
  The claim as it was stated fails when the record has the legacy keys. With \<open>v1_config\<close>
  stored, whose book exemptions \<^verbatim>\<open>[[1, 2]]\<close> hold no id that pruning removes: on a store
  that hands out the stored object the call returns \<^verbatim>\<open>([], [])\<close>, not the stored lists;
  on a store that hands out copies the second record written has an empty list under
  \<^verbatim>\<open>'authorExemptions'\<close>. And with a record waiting in the JSON file the returned author
  exemptions are those of that record, not those \<^verbatim>\<open>db.prefs\<close> holds.
\<close>

theorem exemptions_as_stored_counterexample:
  "stored_record (stored_state v1_config) = Some v1_config
   \<and> bookExemptions v1_config = Some [[PNum 1, PNum 2]]
   \<and> authorExemptions v1_config = Some [[PStr ''A'', PStr ''B'']]
   \<and> has_id (example_db False) (PNum 1) \<and> has_id (example_db False) (PNum 2)
   \<and> fst (get_exemption_lists (example_db False) (stored_state v1_config)) = ([], [])
   \<and> map authorExemptions
         (writes (snd (get_exemption_lists (example_db True) (stored_state v1_config))))
       = [Some [[PStr ''A'', PStr ''B'']], Some []]
   \<and> stored_record waiting_state = Some v1_config
   \<and> snd (fst (get_exemption_lists (example_db False) waiting_state))
       = [[PStr ''C'', PStr ''D'']]"
  by (simp add: accessor_defs example_defs stored_record_def prune_loop_eq Let_def)

end
